theory Spec2Isabelle
  imports Main "HOL-Library.Word" "HOL-Library.AList"
begin

unbundle bit_operations_syntax

section \<open>Display controller: button frames on the serial link\<close>

text \<open>
  Source: \<^verbatim>\<open>internal/controller/display_controller.go\<close>.
  A Go \<^verbatim>\<open>byte\<close> is an 8-bit word; the \<^verbatim>\<open>iota\<close> enumeration
  \<^verbatim>\<open>PanelButton\<close> is a datatype.
\<close>

type_synonym byte = "8 word"

datatype PanelButton = ButtonEnter | ButtonSelect | ButtonUSBCopy

type_synonym ButtonEvent = "PanelButton \<times> bool"

text \<open>
  The part of \<^verbatim>\<open>DisplayController\<close> that button decoding reads and writes.
  \<open>lastButtonState\<close> is the Go map of the same name. The two lists are observation
  logs, in call order: \<open>triggered\<close> holds the arguments of every call of
  \<^verbatim>\<open>triggerButtonEvent\<close> (its Info line "Button event triggered"); \<open>parse_calls\<close>
  holds the argument of every call of \<^verbatim>\<open>parseButtonState\<close>.
\<close>

record DisplayController =
  lastButtonState :: "PanelButton \<rightharpoonup> bool"
  buttonHandler :: bool
  triggered :: "ButtonEvent list"
  dispatched :: "ButtonEvent list"
  parse_calls :: "byte list"

text \<open>The controller as \<^verbatim>\<open>NewDisplayController\<close> leaves it: an empty map, no handler.\<close>

definition NewDisplayController :: DisplayController where
  "NewDisplayController =
     \<lparr>lastButtonState = Map.empty, buttonHandler = False,
      triggered = [], dispatched = [], parse_calls = []\<rparr>"

definition SetButtonHandler :: "DisplayController \<Rightarrow> DisplayController" where
  "SetButtonHandler dc = dc\<lparr>buttonHandler := True\<rparr>"

text \<open>
  \<^verbatim>\<open>checkButtonStateChange\<close>: the lookup \<^verbatim>\<open>lastState, exists := m[button]\<close> is the
  option; the test \<^verbatim>\<open>!exists || lastState != pressed\<close> is the \<open>None\<close> case together
  with the unequal \<open>Some\<close> case. It returns the answer and the updated controller.
\<close>

definition checkButtonStateChange ::
  "DisplayController \<Rightarrow> PanelButton \<Rightarrow> bool \<Rightarrow> bool \<times> DisplayController" where
  "checkButtonStateChange dc button pressed =
     (case lastButtonState dc button of
        None \<Rightarrow> (True, dc\<lparr>lastButtonState := (lastButtonState dc)(button \<mapsto> pressed)\<rparr>)
      | Some lastState \<Rightarrow>
          if lastState = pressed then (False, dc)
          else (True, dc\<lparr>lastButtonState := (lastButtonState dc)(button \<mapsto> pressed)\<rparr>))"

text \<open>
  \<^verbatim>\<open>triggerButtonEvent\<close>: every call is logged; the event is handed to the handler
  (in a goroutine of its own) only when one is registered.
\<close>

definition triggerButtonEvent ::
  "DisplayController \<Rightarrow> PanelButton \<Rightarrow> bool \<Rightarrow> DisplayController" where
  "triggerButtonEvent dc button pressed =
     (if buttonHandler dc
      then dc\<lparr>triggered := triggered dc @ [(button, pressed)],
              dispatched := dispatched dc @ [(button, pressed)]\<rparr>
      else dc\<lparr>triggered := triggered dc @ [(button, pressed)]\<rparr>)"

definition buttonEnterBit :: byte where "buttonEnterBit = 0x01"
definition buttonSelectBit :: byte where "buttonSelectBit = 0x02"
definition buttonUSBCopyBit :: byte where "buttonUSBCopyBit = 0x04"

definition enterPressed :: "byte \<Rightarrow> bool" where
  "enterPressed state = (state AND buttonEnterBit = 0)"

definition selectPressed :: "byte \<Rightarrow> bool" where
  "selectPressed state = (state AND buttonSelectBit = 0)"

definition usbCopyPressed :: "byte \<Rightarrow> bool" where
  "usbCopyPressed state = (state AND buttonUSBCopyBit \<noteq> 0)"

text \<open>One \<^verbatim>\<open>if dc.checkButtonStateChange(b, p) { dc.triggerButtonEvent(b, p) }\<close>.\<close>

definition check_and_trigger ::
  "DisplayController \<Rightarrow> PanelButton \<Rightarrow> bool \<Rightarrow> DisplayController" where
  "check_and_trigger dc button pressed =
     (case checkButtonStateChange dc button pressed of
        (True, dc') \<Rightarrow> triggerButtonEvent dc' button pressed
      | (False, dc') \<Rightarrow> dc')"

definition parseButtonState :: "DisplayController \<Rightarrow> byte \<Rightarrow> DisplayController" where
  "parseButtonState dc state =
     (let dc0 = dc\<lparr>parse_calls := parse_calls dc @ [state]\<rparr>;
          dc1 = check_and_trigger dc0 ButtonEnter (enterPressed state);
          dc2 = check_and_trigger dc1 ButtonSelect (selectPressed state)
      in check_and_trigger dc2 ButtonUSBCopy (usbCopyPressed state))"

text \<open>
  \<^verbatim>\<open>processMessageBuffer\<close>: the loop \<^verbatim>\<open>for len(*buffer) >= 4\<close>, one recursive call per
  \<^verbatim>\<open>continue\<close>. The inner tests \<^verbatim>\<open>len(*buffer) >= 3\<close> and \<^verbatim>\<open>len(*buffer) >= 2\<close> are
  kept; when one fails control falls through to the next test, as in the source. The
  100 ms sleep between the two synthesized copy events has no effect on the data.
  It returns the controller and the buffer left behind.
\<close>

function processMessageBuffer ::
  "DisplayController \<Rightarrow> byte list \<Rightarrow> DisplayController \<times> byte list" where
  "processMessageBuffer dc buffer =
     (if 4 \<le> length buffer then
        if buffer ! 0 = 0x53 \<and> buffer ! 1 = 0x05 \<and> buffer ! 2 = 0x00 then
          processMessageBuffer (parseButtonState dc (buffer ! 3)) (drop 4 buffer)
        else if buffer ! 0 = 0x4D \<and> 3 \<le> length buffer then
          processMessageBuffer dc (drop 3 buffer)
        else if (buffer ! 0 = 0x55 \<or> buffer ! 0 = 0x43) \<and> 2 \<le> length buffer then
          processMessageBuffer
            (triggerButtonEvent (triggerButtonEvent dc ButtonUSBCopy True) ButtonUSBCopy False)
            (drop 2 buffer)
        else if 16 < length (drop 1 buffer) then (dc, [])
        else processMessageBuffer dc (drop 1 buffer)
      else (dc, buffer))"
  by pat_completeness auto
termination
  by (relation "measure (\<lambda>(dc, buffer). length buffer)") auto


text \<open>
  The data branch of one turn of the \<^verbatim>\<open>monitorButtons\<close> loop: the result of
  \<^verbatim>\<open>ReadAvailable\<close> is skipped when it carries an error or no byte, otherwise
  appended to \<^verbatim>\<open>messageBuffer\<close>, which is then processed.
\<close>

definition monitorButtons_read ::
  "DisplayController \<Rightarrow> byte list \<Rightarrow> byte list \<times> string option \<Rightarrow>
     DisplayController \<times> byte list" where
  "monitorButtons_read dc messageBuffer r =
     (case r of
        (data, Some err) \<Rightarrow> (dc, messageBuffer)
      | (data, None) \<Rightarrow>
          if length data = 0 then (dc, messageBuffer)
          else processMessageBuffer dc (messageBuffer @ data))"

text \<open>
  The three tests with which \<^verbatim>\<open>processMessageBuffer\<close> recognizes a message at the
  front of a buffer of at least four bytes; when none holds it discards one byte.
\<close>

definition frame_at_front :: "byte list \<Rightarrow> bool" where
  "frame_at_front buffer =
     ((buffer ! 0 = 0x53 \<and> buffer ! 1 = 0x05 \<and> buffer ! 2 = 0x00) \<or>
      (buffer ! 0 = 0x4D \<and> 3 \<le> length buffer) \<or>
      ((buffer ! 0 = 0x55 \<or> buffer ! 0 = 0x43) \<and> 2 \<le> length buffer))"

section \<open>Serial port\<close>

text \<open>
  Source: \<^verbatim>\<open>internal/serial/serial_port.go\<close>. The device behind
  \<^verbatim>\<open>sp.port\<close> (package tarm/serial) is the environment: \<open>tx\<close> is the sequence of
  bytes it has accepted, and what one \<^verbatim>\<open>Read\<close> or \<^verbatim>\<open>Write\<close> call on it returns is
  a parameter of the function that makes the call. \<^verbatim>\<open>sp.port == nil\<close> is \<open>None\<close>.
\<close>

record Port =
  tx :: "byte list"

record SerialPort =
  port :: "Port option"

datatype SerialError =
    PortNotInitialized
  | WriteFailed string
  | IncompleteWrite nat nat
  | InvalidRow int

text \<open>
  \<^verbatim>\<open>port.Write(data)\<close> returning \<^verbatim>\<open>(n, err)\<close>: the device takes the first \<open>n\<close>
  bytes of \<open>data\<close>.
\<close>

definition port_Write :: "Port \<Rightarrow> byte list \<Rightarrow> nat \<times> string option \<Rightarrow> Port" where
  "port_Write p data outcome = p\<lparr>tx := tx p @ take (fst outcome) data\<rparr>"

definition Write ::
  "SerialPort \<Rightarrow> byte list \<Rightarrow> nat \<times> string option \<Rightarrow> SerialError option \<times> SerialPort" where
  "Write sp data outcome =
     (case port sp of
        None \<Rightarrow> (Some PortNotInitialized, sp)
      | Some p \<Rightarrow>
          (let sp' = sp\<lparr>port := Some (port_Write p data outcome)\<rparr>
           in case outcome of
                (n, Some err) \<Rightarrow> (Some (WriteFailed err), sp')
              | (n, None) \<Rightarrow>
                  if n \<noteq> length data then (Some (IncompleteWrite n (length data)), sp')
                  else (None, sp')))"

text \<open>
  \<^verbatim>\<open>port.Read(buffer)\<close> returning \<^verbatim>\<open>(n, err)\<close>: the device has \<open>avail\<close> bytes to
  give; \<open>n\<close> of them, at most the size of the buffer, overwrite its front.
\<close>

definition port_Read :: "byte list \<Rightarrow> byte list \<times> string option \<Rightarrow> byte list \<times> nat \<times> string option" where
  "port_Read buffer outcome =
     (let n = min (length (fst outcome)) (length buffer)
      in (take n (fst outcome) @ drop n buffer, n, snd outcome))"

text \<open>
  \<^verbatim>\<open>ReadAvailable\<close>. Both branches under \<^verbatim>\<open>err != nil\<close> return the same pair; the
  comparison of the message with the three strings is kept as the source has it.
\<close>

definition ReadAvailable ::
  "SerialPort \<Rightarrow> byte list \<times> string option \<Rightarrow> byte list \<times> SerialError option" where
  "ReadAvailable sp outcome =
     (case port sp of
        None \<Rightarrow> ([], None)
      | Some p \<Rightarrow>
          (case port_Read (replicate 256 0) outcome of
             (buffer, n, Some errMsg) \<Rightarrow>
               if errMsg = ''timeout'' \<or> errMsg = ''EOF'' \<or>
                  errMsg = ''resource temporarily unavailable''
               then ([], None)
               else ([], None)
           | (buffer, n, None) \<Rightarrow>
               if n = 0 then ([], None) else (take n buffer, None)))"

text \<open>
  \<^verbatim>\<open>WriteTextAt\<close> of the display controller, on its serial port. A Go string is its
  bytes and \<^verbatim>\<open>len\<close> counts them. The padding loop
  \<^verbatim>\<open>for len(displayText) < LCD_CHARS_PER_LINE { displayText += " " }\<close> is a recursion
  on the text.
\<close>

definition LCD_CHARS_PER_LINE :: nat where
  "LCD_CHARS_PER_LINE = 16"

function pad_line :: "byte list \<Rightarrow> byte list" where
  "pad_line displayText =
     (if length displayText < LCD_CHARS_PER_LINE then pad_line (displayText @ [0x20])
      else displayText)"
  by pat_completeness auto
termination
  by (relation "measure (\<lambda>displayText. LCD_CHARS_PER_LINE - length displayText)") auto

definition display_text :: "byte list \<Rightarrow> byte list" where
  "display_text text =
     pad_line (if LCD_CHARS_PER_LINE < length text then take LCD_CHARS_PER_LINE text else text)"

definition line_command :: "byte list \<Rightarrow> int \<Rightarrow> byte list" where
  "line_command text row = [0x4D, 0x0C, word_of_int row, 0x10] @ display_text text"

definition WriteTextAt ::
  "SerialPort \<Rightarrow> byte list \<Rightarrow> int \<Rightarrow> int \<Rightarrow> nat \<times> string option \<Rightarrow>
     SerialError option \<times> SerialPort" where
  "WriteTextAt sp text row col outcome =
     (if row < 0 \<or> 1 < row then (Some (InvalidRow row), sp)
      else Write sp (line_command text row) outcome)"


section \<open>LED controller\<close>

text \<open>
  Source: the \<^verbatim>\<open>LEDController\<close> of package \<^verbatim>\<open>controller\<close>. \<^verbatim>\<open>PanelLED\<close> is a
  Go \<^verbatim>\<open>int\<close> and callers may pass any value, so it stays an integer here, with the
  nine named constants.
\<close>

type_synonym PanelLED = int

definition StatusGreen :: PanelLED where "StatusGreen = 0"
definition StatusRed :: PanelLED where "StatusRed = 1"
definition USB :: PanelLED where "USB = 2"
definition Disk1 :: PanelLED where "Disk1 = 3"
definition Disk2 :: PanelLED where "Disk2 = 4"
definition Disk3 :: PanelLED where "Disk3 = 5"
definition Disk4 :: PanelLED where "Disk4 = 6"
definition Disk5 :: PanelLED where "Disk5 = 7"
definition Disk6 :: PanelLED where "Disk6 = 8"

record LEDController =
  portPerms :: bool

text \<open>
  \<^verbatim>\<open>requestPortPermissions\<close> and \<^verbatim>\<open>NewLEDController\<close>. The effective user id and
  the \<^verbatim>\<open>errno\<close> of the \<^verbatim>\<open>ioperm\<close> call come from the operating system and are
  parameters. \<^verbatim>\<open>NewLEDController\<close> returns its controller with a nil error on both
  paths; a failed request only leaves \<open>portPerms\<close> false.
\<close>

datatype PermissionError = NotRoot | IopermFailed nat

definition requestPortPermissions ::
  "LEDController \<Rightarrow> nat \<Rightarrow> nat \<Rightarrow> PermissionError option \<times> LEDController" where
  "requestPortPermissions lc euid errno =
     (if euid \<noteq> 0 then (Some NotRoot, lc)
      else if errno \<noteq> 0 then (Some (IopermFailed errno), lc)
      else (None, lc\<lparr>portPerms := True\<rparr>))"

definition NewLEDController :: "nat \<Rightarrow> nat \<Rightarrow> LEDController \<times> PermissionError option" where
  "NewLEDController euid errno =
     (case requestPortPermissions \<lparr>portPerms = False\<rparr> euid errno of
        (Some err, lc) \<Rightarrow> (lc, None)
      | (None, lc) \<Rightarrow> (lc, None))"

definition regPort :: "16 word" where "regPort = 0xa05"
definition valuePort :: "16 word" where "valuePort = 0xa06"

text \<open>
  A Go map is an association list with distinct keys; ranging over the map visits the
  list in its order, which stands for whatever order the runtime picks.
\<close>

record portConfig =
  register :: byte
  leds :: "(PanelLED \<times> byte) list"

definition statusLEDPort :: portConfig where
  "statusLEDPort = \<lparr>register = 0x91, leds = [(StatusGreen, 2), (StatusRed, 3)]\<rparr>"

definition diskLEDPort :: portConfig where
  "diskLEDPort =
     \<lparr>register = 0x81,
      leds = [(Disk1, 0), (Disk2, 1), (Disk3, 2), (Disk4, 3), (Disk5, 4), (Disk6, 5)]\<rparr>"

definition usbLEDPort :: portConfig where
  "usbLEDPort = \<lparr>register = 0xE1, leds = [(USB, 7)]\<rparr>"

subsection \<open>The hardware behind /dev/port\<close>

text \<open>
  The environment of \<^verbatim>\<open>outb\<close> and \<^verbatim>\<open>inb\<close>. Port \<^verbatim>\<open>0xa05\<close> selects a register and
  port \<^verbatim>\<open>0xa06\<close> reads or writes the selected register, which is how \<^verbatim>\<open>readPort\<close>
  and \<^verbatim>\<open>writePort\<close> use the pair; a register keeps the byte last written to it.
  \<open>faults\<close> scripts the outcome of the successive accesses to \<^verbatim>\<open>/dev/port\<close> (an
  exhausted script means success), and \<open>io_log\<close> records every byte transferred.
\<close>

datatype PortFault = OpenFails | SeekFails | TransferFails

datatype io_op = Outb byte "16 word" | Inb "16 word"

record Hardware =
  index_reg :: byte
  data_regs :: "byte \<Rightarrow> byte"
  faults :: "PortFault option list"
  io_log :: "io_op list"

datatype LEDError =
    UnknownLED PanelLED
  | ReadPortFailed byte PortFault
  | WritePortFailed byte PortFault
  | InvalidDiskNumber int
  | SetDiskLEDFailed int LEDError

definition next_fault :: "Hardware \<Rightarrow> PortFault option \<times> Hardware" where
  "next_fault hw =
     (case faults hw of [] \<Rightarrow> (None, hw) | f # fs \<Rightarrow> (f, hw\<lparr>faults := fs\<rparr>))"

definition outb :: "byte \<Rightarrow> 16 word \<Rightarrow> Hardware \<Rightarrow> PortFault option \<times> Hardware" where
  "outb v p hw =
     (case next_fault hw of
        (Some f, hw') \<Rightarrow> (Some f, hw')
      | (None, hw') \<Rightarrow>
          (let hw'' = hw'\<lparr>io_log := io_log hw' @ [Outb v p]\<rparr>
           in if p = regPort then (None, hw''\<lparr>index_reg := v\<rparr>)
              else if p = valuePort
              then (None, hw''\<lparr>data_regs := (data_regs hw'')(index_reg hw'' := v)\<rparr>)
              else (None, hw'')))"

definition inb :: "16 word \<Rightarrow> Hardware \<Rightarrow> (PortFault + byte) \<times> Hardware" where
  "inb p hw =
     (case next_fault hw of
        (Some f, hw') \<Rightarrow> (Inl f, hw')
      | (None, hw') \<Rightarrow>
          (let hw'' = hw'\<lparr>io_log := io_log hw' @ [Inb p]\<rparr>
           in if p = regPort then (Inr (index_reg hw''), hw'')
              else if p = valuePort then (Inr (data_regs hw'' (index_reg hw'')), hw'')
              else (Inr 0xFF, hw'')))"

subsection \<open>The controller's operations\<close>

definition readPort :: "byte \<Rightarrow> Hardware \<Rightarrow> (PortFault + byte) \<times> Hardware" where
  "readPort reg hw =
     (case outb reg regPort hw of
        (Some f, hw') \<Rightarrow> (Inl f, hw')
      | (None, hw') \<Rightarrow> inb valuePort hw')"

definition writePort :: "byte \<Rightarrow> byte \<Rightarrow> Hardware \<Rightarrow> PortFault option \<times> Hardware" where
  "writePort reg v hw =
     (case outb reg regPort hw of
        (Some f, hw') \<Rightarrow> (Some f, hw')
      | (None, hw') \<Rightarrow> outb v valuePort hw')"

text \<open>
  The loop of \<^verbatim>\<open>updatePortLEDs\<close> over \<^verbatim>\<open>newStates\<close>; \<open>msk\<close> is the source's
  \<^verbatim>\<open>mask\<close>. It is a byte, so
  \<^verbatim>\<open>1 << bit\<close> is a byte too: \<^verbatim>\<open>&^=\<close> clears the bit (LED on), \<^verbatim>\<open>|=\<close> sets it
  (LED off).
\<close>

fun apply_newStates :: "(PanelLED \<times> byte) list \<Rightarrow> (PanelLED \<times> bool) list \<Rightarrow> byte \<Rightarrow> byte" where
  "apply_newStates ledmap [] msk = msk"
| "apply_newStates ledmap ((led, state) # rest) msk =
     apply_newStates ledmap rest
       (case map_of ledmap led of
          None \<Rightarrow> msk
        | Some b \<Rightarrow>
            if state then msk AND NOT (push_bit (unat b) 1)
            else msk OR push_bit (unat b) 1)"

definition updatePortLEDs ::
  "portConfig \<Rightarrow> (PanelLED \<times> bool) list \<Rightarrow> Hardware \<Rightarrow> LEDError option \<times> Hardware" where
  "updatePortLEDs pc newStates hw =
     (case readPort (register pc) hw of
        (Inl f, hw') \<Rightarrow> (Some (ReadPortFailed (register pc) f), hw')
      | (Inr currentMask, hw') \<Rightarrow>
          (let msk = apply_newStates (leds pc) newStates currentMask
           in if msk \<noteq> currentMask
              then (case writePort (register pc) msk hw' of
                      (Some f, hw'') \<Rightarrow> (Some (WritePortFailed (register pc) f), hw'')
                    | (None, hw'') \<Rightarrow> (None, hw''))
              else (None, hw')))"

definition SetLED ::
  "LEDController \<Rightarrow> PanelLED \<Rightarrow> bool \<Rightarrow> Hardware \<Rightarrow> LEDError option \<times> Hardware" where
  "SetLED lc led on hw =
     (if \<not> portPerms lc then (None, hw)
      else case map_of (leds statusLEDPort) led of
             Some b \<Rightarrow> updatePortLEDs (statusLEDPort\<lparr>leds := [(led, b)]\<rparr>) [(led, on)] hw
           | None \<Rightarrow>
          (case map_of (leds diskLEDPort) led of
             Some b \<Rightarrow> updatePortLEDs (diskLEDPort\<lparr>leds := [(led, b)]\<rparr>) [(led, on)] hw
           | None \<Rightarrow>
          (case map_of (leds usbLEDPort) led of
             Some b \<Rightarrow> updatePortLEDs (usbLEDPort\<lparr>leds := [(led, b)]\<rparr>) [(led, on)] hw
           | None \<Rightarrow> (Some (UnknownLED led), hw))))"

definition diskLEDs :: "PanelLED list" where
  "diskLEDs = [Disk1, Disk2, Disk3, Disk4, Disk5, Disk6]"

text \<open>
  The loop of \<^verbatim>\<open>SetDiskLEDs\<close> that fills \<^verbatim>\<open>ledStates\<close>; the assignment
  \<^verbatim>\<open>ledStates[k] = v\<close> is \<open>AList.update\<close>.
\<close>

fun collect_disk_states ::
  "(int \<times> bool) list \<Rightarrow> (PanelLED \<times> bool) list \<Rightarrow> (PanelLED \<times> bool) list" where
  "collect_disk_states [] ledStates = ledStates"
| "collect_disk_states ((diskNum, state) # rest) ledStates =
     collect_disk_states rest
       (if 1 \<le> diskNum \<and> diskNum \<le> 6
        then AList.update (diskLEDs ! nat (diskNum - 1)) state ledStates
        else ledStates)"

definition SetDiskLEDs ::
  "LEDController \<Rightarrow> (int \<times> bool) list \<Rightarrow> Hardware \<Rightarrow> LEDError option \<times> Hardware" where
  "SetDiskLEDs lc states hw =
     (if \<not> portPerms lc then (None, hw)
      else (let ledStates = collect_disk_states states []
            in if length ledStates = 0 then (None, hw)
               else updatePortLEDs diskLEDPort ledStates hw))"

definition SetStatusLED ::
  "LEDController \<Rightarrow> bool \<Rightarrow> bool \<Rightarrow> Hardware \<Rightarrow> LEDError option \<times> Hardware" where
  "SetStatusLED lc red green hw =
     (if \<not> portPerms lc then (None, hw)
      else updatePortLEDs statusLEDPort [(StatusRed, red), (StatusGreen, green)] hw)"

text \<open>
  The test of \<^verbatim>\<open>GetLEDStates\<close> for one LED of a register value:
  \<^verbatim>\<open>(mask & (1 << bit)) == 0\<close>, the logic being inverted.
\<close>

definition led_on :: "byte \<Rightarrow> byte \<Rightarrow> bool" where
  "led_on msk b = (msk AND push_bit (unat b) 1 = 0)"

section \<open>System controller\<close>

text \<open>
  Source: \<^verbatim>\<open>internal/controller/system_controller.go\<close>. Of the controller only the
  \<^verbatim>\<open>led\<close> pointer matters to \<^verbatim>\<open>SetDiskActivity\<close>; \<^verbatim>\<open>nil\<close> is \<open>None\<close>.
\<close>

record SystemController =
  led :: "LEDController option"

text \<open>
  The \<^verbatim>\<open>led\<close> field as \<^verbatim>\<open>NewSystemController\<close> fills it, once the display
  controller is up: \<^verbatim>\<open>led, err := NewLEDController()\<close>, and \<^verbatim>\<open>led = nil\<close> when
  \<^verbatim>\<open>err != nil\<close>. This is the only place of the program that builds a
  \<^verbatim>\<open>SystemController\<close>.
\<close>

definition NewSystemController :: "nat \<Rightarrow> nat \<Rightarrow> SystemController" where
  "NewSystemController euid errno =
     (case NewLEDController euid errno of
        (lc, Some err) \<Rightarrow> \<lparr>led = None\<rparr>
      | (lc, None) \<Rightarrow> \<lparr>led = Some lc\<rparr>)"

text \<open>The \<^verbatim>\<open>switch diskNum\<close> that fills the one-entry map; \<open>None\<close> is its default.\<close>

definition disk_switch :: "int \<Rightarrow> bool \<Rightarrow> (PanelLED \<times> bool) list option" where
  "disk_switch diskNum active =
     (if diskNum = 1 then Some [(Disk1, active)]
      else if diskNum = 2 then Some [(Disk2, active)]
      else if diskNum = 3 then Some [(Disk3, active)]
      else if diskNum = 4 then Some [(Disk4, active)]
      else if diskNum = 5 then Some [(Disk5, active)]
      else if diskNum = 6 then Some [(Disk6, active)]
      else None)"

text \<open>The loop \<^verbatim>\<open>for led, state := range diskLEDs\<close>, leaving at the first error.\<close>

fun set_each_led ::
  "LEDController \<Rightarrow> int \<Rightarrow> (PanelLED \<times> bool) list \<Rightarrow> Hardware \<Rightarrow> LEDError option \<times> Hardware" where
  "set_each_led lc diskNum [] hw = (None, hw)"
| "set_each_led lc diskNum ((l, state) # rest) hw =
     (case SetLED lc l state hw of
        (Some err, hw') \<Rightarrow> (Some (SetDiskLEDFailed diskNum err), hw')
      | (None, hw') \<Rightarrow> set_each_led lc diskNum rest hw')"

definition SetDiskActivity ::
  "SystemController \<Rightarrow> int \<Rightarrow> bool \<Rightarrow> Hardware \<Rightarrow> LEDError option \<times> Hardware" where
  "SetDiskActivity sc diskNum active hw =
     (case led sc of
        None \<Rightarrow> (None, hw)
      | Some lc \<Rightarrow>
          (case disk_switch diskNum active of
             None \<Rightarrow> (Some (InvalidDiskNumber diskNum), hw)
           | Some diskStates \<Rightarrow> set_each_led lc diskNum diskStates hw))"

section \<open>USB copy button monitor\<close>

text \<open>
  Source: the \<^verbatim>\<open>USBCopyMonitor\<close> of package \<^verbatim>\<open>monitor\<close>. The \<^verbatim>\<open>IOPortReader\<close>
  behind it is the environment: \<open>read_outcome n\<close> is what its \<open>n\<close>-th \<^verbatim>\<open>ReadByte\<close> call
  returns and \<open>cursor\<close> counts the calls made. The \<^verbatim>\<open>closed\<close> flag is read under the
  lock at every sample and is taken here as it stands during the call.
\<close>

datatype MonitorError = MonitorClosed | ReadByteFailed string

record IOPortReader =
  read_outcome :: "nat \<Rightarrow> string + byte"
  cursor :: nat

record USBCopyMonitor =
  closed :: bool

definition ReadByte :: "IOPortReader \<Rightarrow> (string + byte) \<times> IOPortReader" where
  "ReadByte io = (read_outcome io (cursor io), io\<lparr>cursor := cursor io + 1\<rparr>)"

definition IsButtonPressed ::
  "USBCopyMonitor \<Rightarrow> IOPortReader \<Rightarrow> (MonitorError + bool) \<times> IOPortReader" where
  "IsButtonPressed m io =
     (if closed m then (Inl MonitorClosed, io)
      else case ReadByte io of
             (Inl err, io') \<Rightarrow> (Inl (ReadByteFailed err), io')
           | (Inr v, io') \<Rightarrow> (Inr (v AND 0x01 = 0), io'))"

definition sampleCount :: nat where
  "sampleCount = 3"

text \<open>
  The loop \<^verbatim>\<open>for i := 0; i < sampleCount; i++\<close> of \<^verbatim>\<open>GetButtonState\<close>, carrying
  \<^verbatim>\<open>pressedCount\<close>; the sleeps between samples do not touch the data.
\<close>

function sample_loop ::
  "USBCopyMonitor \<Rightarrow> nat \<Rightarrow> nat \<Rightarrow> IOPortReader \<Rightarrow> (MonitorError + nat) \<times> IOPortReader" where
  "sample_loop m i pressedCount io =
     (if i < sampleCount then
        (case IsButtonPressed m io of
           (Inl err, io') \<Rightarrow> (Inl err, io')
         | (Inr pressed, io') \<Rightarrow>
             sample_loop m (i + 1) (if pressed then pressedCount + 1 else pressedCount) io')
      else (Inr pressedCount, io))"
  by pat_completeness auto
termination
  by (relation "measure (\<lambda>(m, i, pressedCount, io). sampleCount - i)") auto

definition GetButtonState ::
  "USBCopyMonitor \<Rightarrow> IOPortReader \<Rightarrow> (MonitorError + bool) \<times> IOPortReader" where
  "GetButtonState m io =
     (case sample_loop m 0 0 io of
        (Inl err, io') \<Rightarrow> (Inl err, io')
      | (Inr pressedCount, io') \<Rightarrow> (Inr (sampleCount div 2 < pressedCount), io'))"


text \<open>
  A front panel at rest, used to run the operations on a concrete machine: every register
  reads \<^verbatim>\<open>0xFF\<close> (all LEDs off, the logic being inverted) and no access fails.
\<close>

definition panel_idle :: Hardware where
  "panel_idle = \<lparr>index_reg = 0, data_regs = (\<lambda>r. 0xFF), faults = [], io_log = []\<rparr>"

text \<open>A port reader whose second sample alone differs from the others.\<close>

definition glitch_reader :: "byte \<Rightarrow> byte \<Rightarrow> IOPortReader" where
  "glitch_reader v g = \<lparr>read_outcome = (\<lambda>n. if n = 1 then Inr g else Inr v), cursor = 0\<rparr>"

declare processMessageBuffer.simps [simp del]
declare pad_line.simps [simp del]
declare sample_loop.simps [simp del]

section \<open>Button decoding: edges and repeats\<close>

lemma check_and_trigger_last:
  "lastButtonState (check_and_trigger dc b p) = (lastButtonState dc)(b \<mapsto> p)"
  by (auto simp: check_and_trigger_def checkButtonStateChange_def triggerButtonEvent_def
      split: option.splits)

lemma check_and_trigger_triggered:
  "triggered (check_and_trigger dc b p) =
     triggered dc @ (if lastButtonState dc b = Some p then [] else [(b, p)])"
  by (auto simp: check_and_trigger_def checkButtonStateChange_def triggerButtonEvent_def
      split: option.splits)

lemma check_and_trigger_parse_calls:
  "parse_calls (check_and_trigger dc b p) = parse_calls dc"
  by (auto simp: check_and_trigger_def checkButtonStateChange_def triggerButtonEvent_def
      split: option.splits)

lemma parseButtonState_last:
  "lastButtonState (parseButtonState dc s) =
     (lastButtonState dc)(ButtonEnter \<mapsto> enterPressed s, ButtonSelect \<mapsto> selectPressed s,
        ButtonUSBCopy \<mapsto> usbCopyPressed s)"
  by (simp add: parseButtonState_def Let_def check_and_trigger_last)

lemma parseButtonState_triggered:
  "triggered (parseButtonState dc s) =
     triggered dc @ filter (\<lambda>(b, p). lastButtonState dc b \<noteq> Some p)
       [(ButtonEnter, enterPressed s), (ButtonSelect, selectPressed s),
        (ButtonUSBCopy, usbCopyPressed s)]"
  by (simp add: parseButtonState_def Let_def check_and_trigger_last check_and_trigger_triggered)

lemma parseButtonState_parse_calls:
  "parse_calls (parseButtonState dc s) = parse_calls dc @ [s]"
  by (simp add: parseButtonState_def Let_def check_and_trigger_parse_calls)

lemma parseButtonState_repeat:
  "triggered (parseButtonState (parseButtonState dc s) s) = triggered (parseButtonState dc s)"
  by (simp add: parseButtonState_triggered [of "parseButtonState dc s"] parseButtonState_last)

lemma processMessageBuffer_short:
  "length buffer < 4 \<Longrightarrow> processMessageBuffer dc buffer = (dc, buffer)"
  by (simp add: processMessageBuffer.simps)

lemma processMessageBuffer_frame:
  "processMessageBuffer dc (0x53 # 0x05 # 0x00 # s # rest) =
     processMessageBuffer (parseButtonState dc s) rest"
  by (subst processMessageBuffer.simps) simp

lemma processMessageBuffer_single_frame:
  "processMessageBuffer dc [0x53, 0x05, 0x00, s] = (parseButtonState dc s, [])"
  by (simp add: processMessageBuffer_frame processMessageBuffer_short)

lemma pressed_FF_FE:
  "enterPressed 0xFF = False" "selectPressed 0xFF = False" "usbCopyPressed 0xFF = True"
  "enterPressed 0xFE = True" "selectPressed 0xFE = False" "usbCopyPressed 0xFE = True"
  by (simp_all add: enterPressed_def selectPressed_def usbCopyPressed_def buttonEnterBit_def
      buttonSelectBit_def buttonUSBCopyBit_def)

lemma press_release_sequence:
  "(let d1 = parseButtonState dc 0xFF; d2 = parseButtonState d1 0xFE;
        d3 = parseButtonState d2 0xFF; d4 = parseButtonState d3 0xFE;
        d5 = parseButtonState d4 0xFE
    in triggered d2 = triggered d1 @ [(ButtonEnter, True)] \<and>
       triggered d3 = triggered d2 @ [(ButtonEnter, False)] \<and>
       triggered d4 = triggered d3 @ [(ButtonEnter, True)] \<and>
       triggered d5 = triggered d4)"
  unfolding Let_def
  by (simp add: parseButtonState_triggered [of "parseButtonState _ _"] parseButtonState_last
      pressed_FF_FE)

text \<open>
  Claim C1, as the code has it. Extracting the frame \<^verbatim>\<open>0x53 0x05 0x00 s\<close> from the
  buffer is one call of \<^verbatim>\<open>parseButtonState\<close> with \<open>s\<close> and empties the buffer. That
  call emits, in the order ENTER, SELECT, USB_COPY, one event for each button whose
  decoded value is not the recorded one (a button without a record counts as changed),
  so anything from no event to three; a second frame with the same \<open>s\<close> emits nothing.
  Once \<^verbatim>\<open>0xFF\<close> has been processed, \<^verbatim>\<open>0xFE\<close> emits only (ENTER, pressed), a following
  \<^verbatim>\<open>0xFF\<close> emits only (ENTER, released), and \<^verbatim>\<open>0xFE\<close> twice in a row emits nothing
  the second time.
\<close>

theorem button_frame_repeat_emits_nothing:
  "processMessageBuffer dc [0x53, 0x05, 0x00, s] = (parseButtonState dc s, []) \<and>
   triggered (parseButtonState dc s) =
     triggered dc @ filter (\<lambda>(b, p). lastButtonState dc b \<noteq> Some p)
       [(ButtonEnter, enterPressed s), (ButtonSelect, selectPressed s),
        (ButtonUSBCopy, usbCopyPressed s)] \<and>
   triggered (parseButtonState (parseButtonState dc s) s) = triggered (parseButtonState dc s) \<and>
   (let d1 = parseButtonState dc 0xFF; d2 = parseButtonState d1 0xFE;
        d3 = parseButtonState d2 0xFF; d4 = parseButtonState d3 0xFE;
        d5 = parseButtonState d4 0xFE
    in triggered d2 = triggered d1 @ [(ButtonEnter, True)] \<and>
       triggered d3 = triggered d2 @ [(ButtonEnter, False)] \<and>
       triggered d4 = triggered d3 @ [(ButtonEnter, True)] \<and>
       triggered d5 = triggered d4)"
  using processMessageBuffer_single_frame [of dc s] parseButtonState_triggered [of dc s]
    parseButtonState_repeat [of dc s] press_release_sequence [of dc]
  by (intro conjI)

theorem button_frame_repeat_emits_nothing_witness:
  "fst (processMessageBuffer NewDisplayController [0x53, 0x05, 0x00, 0xFE]) =
     parseButtonState NewDisplayController 0xFE \<and>
   triggered (parseButtonState (parseButtonState NewDisplayController 0xFE) 0xFE) =
     triggered (parseButtonState NewDisplayController 0xFE)"
  using button_frame_repeat_emits_nothing [of NewDisplayController "0xFE"]
  by simp

text \<open>
  Claim C1 as written asks for exactly one event on the first occurrence. On a fresh
  controller the frame with state \<^verbatim>\<open>0xFE\<close> emits three.
\<close>

theorem first_frame_emits_three_events_not_one:
  "triggered (fst (processMessageBuffer NewDisplayController [0x53, 0x05, 0x00, 0xFE])) =
     [(ButtonEnter, True), (ButtonSelect, False), (ButtonUSBCopy, True)] \<and>
   length (triggered (fst (processMessageBuffer NewDisplayController [0x53, 0x05, 0x00, 0xFE])))
     \<noteq> 1"
  by (simp add: processMessageBuffer_single_frame parseButtonState_triggered
      NewDisplayController_def pressed_FF_FE)

text \<open>
  Claim C10. Whatever the state byte, the first frame decoded on a controller whose map
  of last states is empty emits an event for each of the three buttons, carrying the
  decoded value, pressed or not: with state \<^verbatim>\<open>0xFB\<close> all three are released events.
\<close>

theorem first_frame_emits_all_three:
  "triggered (parseButtonState (dc\<lparr>lastButtonState := Map.empty\<rparr>) s) =
     triggered dc @ [(ButtonEnter, enterPressed s), (ButtonSelect, selectPressed s),
                     (ButtonUSBCopy, usbCopyPressed s)] \<and>
   triggered (fst (processMessageBuffer NewDisplayController [0x53, 0x05, 0x00, s])) =
     [(ButtonEnter, enterPressed s), (ButtonSelect, selectPressed s),
      (ButtonUSBCopy, usbCopyPressed s)] \<and>
   triggered (fst (processMessageBuffer NewDisplayController [0x53, 0x05, 0x00, 0xFB])) =
     [(ButtonEnter, False), (ButtonSelect, False), (ButtonUSBCopy, False)]"
  by (simp add: processMessageBuffer_single_frame parseButtonState_triggered
      NewDisplayController_def enterPressed_def selectPressed_def usbCopyPressed_def
      buttonEnterBit_def buttonSelectBit_def buttonUSBCopyBit_def)

theorem first_frame_emits_all_three_witness:
  "triggered (fst (processMessageBuffer NewDisplayController [0x53, 0x05, 0x00, 0xFF])) =
     [(ButtonEnter, False), (ButtonSelect, False), (ButtonUSBCopy, True)]"
  using first_frame_emits_all_three [of NewDisplayController "0xFF"]
  by (simp add: pressed_FF_FE)


section \<open>Frame extraction: overflow and split frames\<close>

lemma length_snd_processMessageBuffer:
  "length (snd (processMessageBuffer dc buffer)) \<le> 3"
proof (induction dc buffer rule: processMessageBuffer.induct)
  case (1 dc buffer)
  show ?case
    by (subst processMessageBuffer.simps) (use 1 in \<open>auto simp del: drop_Suc_Cons\<close>)
qed

lemma processMessageBuffer_overflow:
  assumes "17 < length buffer" "\<not> frame_at_front buffer"
  shows "processMessageBuffer dc buffer = (dc, [])"
  using assms by (subst processMessageBuffer.simps) (auto simp: frame_at_front_def)

text \<open>
  Claim C2, as the code has it. The overflow test runs after the unrecognized first byte
  has been dropped and compares what is left with 16: a buffer of more than 17 bytes
  with no message at its front is emptied by one call, with no event and no change of
  the controller. Whatever the input, the buffer a call leaves behind holds at most three
  bytes, so its length between calls is bounded by three plus one read.
\<close>

theorem unrecognized_overflow_clears_buffer:
  "(17 < length buffer \<and> \<not> frame_at_front buffer \<longrightarrow>
      processMessageBuffer dc buffer = (dc, [])) \<and>
   length (snd (processMessageBuffer dc buffer)) \<le> 3"
  using processMessageBuffer_overflow [of buffer dc] length_snd_processMessageBuffer [of dc buffer]
  by blast

theorem unrecognized_overflow_clears_buffer_witness:
  "17 < length (replicate 18 (0 :: byte)) \<and> \<not> frame_at_front (replicate 18 0) \<and>
   processMessageBuffer NewDisplayController (replicate 18 0) = (NewDisplayController, [])"
proof -
  have h: "17 < length (replicate 18 (0 :: byte)) \<and> \<not> frame_at_front (replicate 18 0)"
    by (simp add: frame_at_front_def)
  with unrecognized_overflow_clears_buffer [of "replicate 18 0" NewDisplayController]
  show ?thesis by blast
qed

text \<open>
  Claim C2 as written starts at more than 16 bytes. Seventeen bytes, none of which
  starts a message, are not discarded wholesale: they are dropped one at a time and the
  last three stay in the buffer.
\<close>

theorem seventeen_unrecognized_bytes_leave_three:
  "length (replicate 17 (0 :: byte)) = 17 \<and>
   snd (processMessageBuffer NewDisplayController (replicate 17 0)) = [0, 0, 0] \<and>
   snd (processMessageBuffer NewDisplayController (replicate 17 0)) \<noteq> []"
  by code_simp

lemma monitorButtons_read_short:
  "data \<noteq> [] \<Longrightarrow> length (messageBuffer @ data) < 4 \<Longrightarrow>
   monitorButtons_read dc messageBuffer (data, None) = (dc, messageBuffer @ data)"
  by (simp add: monitorButtons_read_def processMessageBuffer_short)

lemma monitorButtons_read_completes:
  "data \<noteq> [] \<Longrightarrow> messageBuffer @ data = [0x53, 0x05, 0x00, s] \<Longrightarrow>
   monitorButtons_read dc messageBuffer (data, None) = (parseButtonState dc s, [])"
  by (simp add: monitorButtons_read_def processMessageBuffer_single_frame)

lemma split_frame_two_reads:
  assumes "part1 \<noteq> []" "part2 \<noteq> []" "part1 @ part2 = [0x53, 0x05, 0x00, s]"
  shows "monitorButtons_read dc [] (part1, None) = (dc, part1) \<and>
     monitorButtons_read dc part1 (part2, None) = (parseButtonState dc s, [])"
proof -
  have "length part1 + length part2 = 4"
    using arg_cong [OF assms(3), of length] by simp
  then have "length ([] @ part1) < 4"
    using assms(2) by (cases part2) simp_all
  then show ?thesis
    using assms by (simp add: monitorButtons_read_short monitorButtons_read_completes)
qed

text \<open>
  Claim C3. Cut the frame \<^verbatim>\<open>0x53 0x05 0x00 s\<close> after \<open>k\<close> bytes, \<open>k\<close> from 1 to 3,
  and feed the two parts to the monitor loop as two reads, starting from an empty
  buffer. The first read decodes nothing and keeps its bytes; the second makes exactly
  one call of \<^verbatim>\<open>parseButtonState\<close>, with \<open>s\<close>, and leaves the buffer empty.
\<close>

theorem split_frame_decoded_once:
  assumes "1 \<le> k" "k \<le> 3"
  shows "(case monitorButtons_read dc [] (take k [0x53, 0x05, 0x00, s], None) of
            (dc1, buf1) \<Rightarrow>
          case monitorButtons_read dc1 buf1 (drop k [0x53, 0x05, 0x00, s], None) of
            (dc2, buf2) \<Rightarrow>
              dc1 = dc \<and> buf1 = take k [0x53, 0x05, 0x00, s] \<and>
              dc2 = parseButtonState dc s \<and> buf2 = [] \<and>
              parse_calls dc2 = parse_calls dc @ [s])"
proof -
  let ?frame = "[0x53, 0x05, 0x00, s]"
  have "take k ?frame \<noteq> []" "drop k ?frame \<noteq> []"
    using assms by simp_all
  from split_frame_two_reads [OF this append_take_drop_id, of dc]
  show ?thesis
    by (simp add: parseButtonState_parse_calls)
qed

theorem split_frame_decoded_once_witness:
  "(1 :: nat) \<le> 2 \<and> (2 :: nat) \<le> 3 \<and>
   monitorButtons_read NewDisplayController [] ([0x53, 0x05], None) =
     (NewDisplayController, [0x53, 0x05]) \<and>
   monitorButtons_read NewDisplayController [0x53, 0x05] ([0x00, 0xFE], None) =
     (parseButtonState NewDisplayController 0xFE, []) \<and>
   parse_calls (parseButtonState NewDisplayController 0xFE) = [0xFE]"
proof -
  have h: "(1 :: nat) \<le> 2" "(2 :: nat) \<le> 3" by simp_all
  have t: "take 2 [0x53, 0x05, 0x00, 0xFE :: byte] = [0x53, 0x05]"
    "drop 2 [0x53, 0x05, 0x00, 0xFE :: byte] = [0x00, 0xFE]"
    by (simp_all add: numeral_2_eq_2)
  have p: "parse_calls NewDisplayController = []"
    by (simp add: NewDisplayController_def)
  from split_frame_decoded_once [OF h, of NewDisplayController "0xFE"]
  show ?thesis
    unfolding t by (auto simp: p split: prod.splits)
qed


section \<open>Serial port: reads that never fail, the line command\<close>

text \<open>
  Claim C7. Whatever the device read returns (an error of any text, with or without
  bytes, or no byte at all) and also without a device, \<^verbatim>\<open>ReadAvailable\<close> returns a nil
  error; its data are empty in each of those cases, and otherwise the bytes read, at
  most the 256 of its buffer.
\<close>

theorem ReadAvailable_never_errors:
  "snd (ReadAvailable sp res) = None \<and>
   (port sp = None \<or> snd res \<noteq> None \<or> fst res = [] \<longrightarrow>
      ReadAvailable sp res = ([], None)) \<and>
   (port sp \<noteq> None \<and> snd res = None \<and> fst res \<noteq> [] \<longrightarrow>
      ReadAvailable sp res = (take 256 (fst res), None))"
  by (cases res)
     (auto simp: ReadAvailable_def port_Read_def Let_def min_def split: option.splits if_splits)

theorem ReadAvailable_never_errors_witness:
  "ReadAvailable \<lparr>port = Some \<lparr>tx = []\<rparr>\<rparr> ([], Some ''timeout'') = ([], None) \<and>
   ReadAvailable \<lparr>port = Some \<lparr>tx = []\<rparr>\<rparr> ([0x53, 0x05], Some ''input/output error'') =
     ([], None) \<and>
   ReadAvailable \<lparr>port = Some \<lparr>tx = []\<rparr>\<rparr> ([0x53, 0x05], None) = ([0x53, 0x05], None)"
  using ReadAvailable_never_errors [of "\<lparr>port = Some \<lparr>tx = []\<rparr>\<rparr>" "([], Some ''timeout'')"]
    ReadAvailable_never_errors
      [of "\<lparr>port = Some \<lparr>tx = []\<rparr>\<rparr>" "([0x53, 0x05], Some ''input/output error'')"]
    ReadAvailable_never_errors [of "\<lparr>port = Some \<lparr>tx = []\<rparr>\<rparr>" "([0x53, 0x05], None)"]
  by simp

lemma pad_line_eq:
  "pad_line xs = xs @ replicate (LCD_CHARS_PER_LINE - length xs) 0x20"
proof (induction xs rule: pad_line.induct)
  case (1 displayText)
  show ?case
  proof (cases "length displayText < LCD_CHARS_PER_LINE")
    case True
    then have "LCD_CHARS_PER_LINE - length displayText =
        Suc (LCD_CHARS_PER_LINE - length (displayText @ [0x20]))"
      by simp
    with True 1 show ?thesis
      by (subst pad_line.simps) (simp add: replicate_app_Cons_same)
  next
    case False
    then show ?thesis by (subst pad_line.simps) simp
  qed
qed

lemma display_text_eq:
  "display_text text =
     take LCD_CHARS_PER_LINE text @ replicate (LCD_CHARS_PER_LINE - length text) 0x20"
  by (simp add: display_text_def pad_line_eq)

lemma length_display_text: "length (display_text text) = LCD_CHARS_PER_LINE"
  by (simp add: display_text_eq)

lemma line_command_eq:
  "line_command text row =
     [0x4D, 0x0C, word_of_int row, 0x10] @ take 16 text @ replicate (16 - length text) 0x20"
  unfolding line_command_def display_text_eq LCD_CHARS_PER_LINE_def ..

lemma length_line_command: "length (line_command text row) = 20"
  by (simp add: line_command_def length_display_text LCD_CHARS_PER_LINE_def)

lemma Write_complete:
  "port sp = Some p \<Longrightarrow>
   Write sp data (length data, None) = (None, sp\<lparr>port := Some (p\<lparr>tx := tx p @ data\<rparr>)\<rparr>)"
  by (simp add: Write_def port_Write_def)

text \<open>
  Claim C8. For row 0 or 1, \<^verbatim>\<open>WriteTextAt\<close> is one \<^verbatim>\<open>Write\<close> of the 20 bytes
  \<^verbatim>\<open>0x4D 0x0C row 0x10\<close> followed by the first 16 bytes of the text and then spaces up
  to 16; when the device takes the whole write, exactly these bytes are appended to what
  it has received and the result is nil. For any other row the result is the invalid-row
  error and the port is as it was.
\<close>

theorem WriteTextAt_command:
  "(0 \<le> row \<and> row \<le> 1 \<longrightarrow>
      WriteTextAt sp text row col res =
        Write sp ([0x4D, 0x0C, word_of_int row, 0x10] @ take 16 text @
                  replicate (16 - length text) 0x20) res \<and>
      length ([0x4D, 0x0C, word_of_int row, 0x10 :: byte] @ take 16 text @
                  replicate (16 - length text) 0x20) = 20) \<and>
   (0 \<le> row \<and> row \<le> 1 \<and> port sp = Some p \<longrightarrow>
      WriteTextAt sp text row col (20, None) =
        (None, sp\<lparr>port := Some (p\<lparr>tx := tx p @ [0x4D, 0x0C, word_of_int row, 0x10] @
           take 16 text @ replicate (16 - length text) 0x20\<rparr>)\<rparr>)) \<and>
   (row < 0 \<or> 1 < row \<longrightarrow>
      WriteTextAt sp text row col res = (Some (InvalidRow row), sp))"
proof -
  have len: "length (line_command text row) = 20"
    by (rule length_line_command)
  have ok: "WriteTextAt sp text row col r = Write sp (line_command text row) r"
    if "0 \<le> row" "row \<le> 1" for r
    using that by (simp add: WriteTextAt_def)
  have full: "WriteTextAt sp text row col (20, None) =
      (None, sp\<lparr>port := Some (p\<lparr>tx := tx p @ line_command text row\<rparr>)\<rparr>)"
    if "0 \<le> row" "row \<le> 1" "port sp = Some p"
    using that Write_complete [of sp p "line_command text row"] by (simp add: ok len)
  have bad: "WriteTextAt sp text row col res = (Some (InvalidRow row), sp)"
    if "row < 0 \<or> 1 < row"
    using that by (auto simp: WriteTextAt_def)
  from len ok full bad show ?thesis
    unfolding line_command_eq by blast
qed

theorem WriteTextAt_command_witness:
  "(0 :: int) \<le> 1 \<and> (1 :: int) \<le> 1 \<and>
   WriteTextAt \<lparr>port = Some \<lparr>tx = []\<rparr>\<rparr> [0x4F, 0x4B] 1 0 (20, None) =
     (None, \<lparr>port = Some \<lparr>tx = [0x4D, 0x0C, 0x01, 0x10, 0x4F, 0x4B,
        0x20, 0x20, 0x20, 0x20, 0x20, 0x20, 0x20, 0x20, 0x20, 0x20, 0x20, 0x20, 0x20, 0x20]\<rparr>\<rparr>) \<and>
   (1 :: int) < 2 \<and>
   WriteTextAt \<lparr>port = Some \<lparr>tx = []\<rparr>\<rparr> [0x4F, 0x4B] 2 0 (20, None) =
     (Some (InvalidRow 2), \<lparr>port = Some \<lparr>tx = []\<rparr>\<rparr>)"
proof -
  let ?sp = "\<lparr>port = Some \<lparr>tx = []\<rparr>\<rparr>"
  let ?text = "[0x4F, 0x4B] :: byte list"
  have t: "take 16 ?text @ replicate (16 - length ?text) 0x20 =
      [0x4F, 0x4B, 0x20, 0x20, 0x20, 0x20, 0x20, 0x20, 0x20, 0x20, 0x20, 0x20, 0x20, 0x20,
       0x20, 0x20]"
    by (simp add: eval_nat_numeral)
  have h: "(0 :: int) \<le> 1 \<and> (1 :: int) \<le> 1 \<and> port ?sp = Some \<lparr>tx = []\<rparr>"
    by simp
  have "WriteTextAt ?sp ?text 1 0 (20, None) =
      (None, ?sp\<lparr>port := Some (\<lparr>tx = []\<rparr>\<lparr>tx := tx \<lparr>tx = []\<rparr> @
         [0x4D, 0x0C, word_of_int 1, 0x10] @ take 16 ?text @
         replicate (16 - length ?text) 0x20\<rparr>)\<rparr>)"
    using WriteTextAt_command [of 1 ?sp ?text 0 "(20, None)" "\<lparr>tx = []\<rparr>"] h by blast
  then have ok: "WriteTextAt ?sp ?text 1 0 (20, None) =
      (None, \<lparr>port = Some \<lparr>tx = [0x4D, 0x0C, 0x01, 0x10, 0x4F, 0x4B,
        0x20, 0x20, 0x20, 0x20, 0x20, 0x20, 0x20, 0x20, 0x20, 0x20, 0x20, 0x20, 0x20, 0x20]\<rparr>\<rparr>)"
    unfolding t by simp
  have "(2 :: int) < 0 \<or> (1 :: int) < 2"
    by simp
  with WriteTextAt_command [of 2 ?sp ?text 0 "(20, None)" "\<lparr>tx = []\<rparr>"]
  have bad: "WriteTextAt ?sp ?text 2 0 (20, None) = (Some (InvalidRow 2), ?sp)"
    by blast
  from ok bad show ?thesis by simp
qed

section \<open>USB copy button: raw read and debounced read\<close>

lemma IsButtonPressed_ok:
  "\<not> closed m \<Longrightarrow> read_outcome io (cursor io) = Inr v \<Longrightarrow>
   IsButtonPressed m io = (Inr (\<not> bit v 0), io\<lparr>cursor := cursor io + 1\<rparr>)"
  by (simp add: IsButtonPressed_def ReadByte_def bit_0 and_one_eq even_iff_mod_2_eq_zero)

lemma sample_loop_step:
  assumes "i < sampleCount" "\<not> closed m" "read_outcome io (cursor io) = Inr v"
  shows "sample_loop m i c io =
     sample_loop m (i + 1) (if \<not> bit v 0 then c + 1 else c) (io\<lparr>cursor := cursor io + 1\<rparr>)"
  by (subst sample_loop.simps) (simp add: assms IsButtonPressed_ok)

lemma sample_loop_exit:
  "\<not> i < sampleCount \<Longrightarrow> sample_loop m i c io = (Inr c, io)"
  by (subst sample_loop.simps) simp

lemma sample_loop_three:
  assumes "\<not> closed m"
    and "read_outcome io (cursor io) = Inr v0"
    and "read_outcome io (cursor io + 1) = Inr v1"
    and "read_outcome io (cursor io + 2) = Inr v2"
  shows "sample_loop m 0 0 io =
     (Inr (length (filter (\<lambda>v. \<not> bit v 0) [v0, v1, v2])), io\<lparr>cursor := cursor io + 3\<rparr>)"
proof -
  have a1: "read_outcome io (Suc (cursor io)) = Inr v1"
    using assms(3) by simp
  have a2: "read_outcome io (Suc (Suc (cursor io))) = Inr v2"
    using assms(4) by (simp add: numeral_2_eq_2)
  let ?io1 = "io\<lparr>cursor := cursor io + 1\<rparr>"
  let ?io2 = "?io1\<lparr>cursor := cursor ?io1 + 1\<rparr>"
  let ?io3 = "?io2\<lparr>cursor := cursor ?io2 + 1\<rparr>"
  let ?c1 = "if \<not> bit v0 0 then 0 + 1 else (0::nat)"
  let ?c2 = "if \<not> bit v1 0 then ?c1 + 1 else ?c1"
  let ?c3 = "if \<not> bit v2 0 then ?c2 + 1 else ?c2"
  have "sample_loop m 0 0 io = sample_loop m (0 + 1) ?c1 ?io1"
    by (rule sample_loop_step) (simp_all add: assms sampleCount_def)
  also have "\<dots> = sample_loop m (0 + 1 + 1) ?c2 ?io2"
    by (rule sample_loop_step) (simp_all add: assms a1 sampleCount_def)
  also have "\<dots> = sample_loop m (0 + 1 + 1 + 1) ?c3 ?io3"
    by (rule sample_loop_step) (simp_all add: assms a2 sampleCount_def)
  also have "\<dots> = (Inr ?c3, ?io3)"
    by (rule sample_loop_exit) (simp add: sampleCount_def)
  finally show ?thesis by simp
qed

lemma GetButtonState_three:
  assumes "\<not> closed m"
    and "read_outcome io (cursor io) = Inr v0"
    and "read_outcome io (cursor io + 1) = Inr v1"
    and "read_outcome io (cursor io + 2) = Inr v2"
  shows "GetButtonState m io =
       (Inr (2 \<le> length (filter (\<lambda>v. \<not> bit v 0) [v0, v1, v2])), io\<lparr>cursor := cursor io + 3\<rparr>)"
  by (simp add: GetButtonState_def sample_loop_three [OF assms] sampleCount_def)

text \<open>
  Claim C6. On an open monitor whose port reads succeed, the raw read reports pressed
  exactly when bit 0 of the byte read is 0. The debounced read takes three samples, the
  next three bytes of the port, and reports pressed exactly when at least two of them
  have bit 0 clear; so whenever two of the three samples agree, the answer is theirs,
  whatever the third one says.
\<close>

theorem button_read_and_debounce:
  assumes "\<not> closed m"
    and "read_outcome io (cursor io) = Inr v0"
    and "read_outcome io (cursor io + 1) = Inr v1"
    and "read_outcome io (cursor io + 2) = Inr v2"
  shows "IsButtonPressed m io = (Inr (\<not> bit v0 0), io\<lparr>cursor := cursor io + 1\<rparr>) \<and>
     GetButtonState m io =
       (Inr (2 \<le> length (filter (\<lambda>v. \<not> bit v 0) [v0, v1, v2])), io\<lparr>cursor := cursor io + 3\<rparr>) \<and>
     (if bit v0 0 = bit v1 0 then fst (GetButtonState m io) = Inr (\<not> bit v0 0)
      else fst (GetButtonState m io) = Inr (\<not> bit v2 0)) \<and>
     (if bit v1 0 = bit v2 0 then fst (GetButtonState m io) = Inr (\<not> bit v1 0)
      else fst (GetButtonState m io) = Inr (\<not> bit v0 0))"
  using assms(1,2)
  by (auto simp: GetButtonState_three [OF assms] IsButtonPressed_ok)

theorem button_read_and_debounce_witness:
  "\<not> closed \<lparr>closed = False\<rparr> \<and>
   read_outcome (glitch_reader 0xFE 0xFF) (cursor (glitch_reader 0xFE 0xFF)) = Inr 0xFE \<and>
   read_outcome (glitch_reader 0xFE 0xFF) (cursor (glitch_reader 0xFE 0xFF) + 1) = Inr 0xFF \<and>
   read_outcome (glitch_reader 0xFE 0xFF) (cursor (glitch_reader 0xFE 0xFF) + 2) = Inr 0xFE \<and>
   fst (IsButtonPressed \<lparr>closed = False\<rparr> (glitch_reader 0xFE 0xFF)) = Inr True \<and>
   fst (GetButtonState \<lparr>closed = False\<rparr> (glitch_reader 0xFE 0xFF)) = Inr True \<and>
   cursor (snd (GetButtonState \<lparr>closed = False\<rparr> (glitch_reader 0xFE 0xFF))) = 3"
proof -
  have h: "\<not> closed \<lparr>closed = False\<rparr>"
    "read_outcome (glitch_reader 0xFE 0xFF) (cursor (glitch_reader 0xFE 0xFF)) = Inr 0xFE"
    "read_outcome (glitch_reader 0xFE 0xFF) (cursor (glitch_reader 0xFE 0xFF) + 1) = Inr 0xFF"
    "read_outcome (glitch_reader 0xFE 0xFF) (cursor (glitch_reader 0xFE 0xFF) + 2) = Inr 0xFE"
    by (simp_all add: glitch_reader_def)
  from button_read_and_debounce [OF h] h show ?thesis
    by (simp add: glitch_reader_def)
qed


section \<open>LED registers: read, modify, write\<close>

lemma reg_ne_value: "regPort \<noteq> valuePort" "valuePort \<noteq> regPort"
  by (simp_all add: regPort_def valuePort_def)

lemma readPort_cases:
  "(\<exists>f hw'. readPort reg hw = (Inl f, hw') \<and> data_regs hw' = data_regs hw) \<or>
   (\<exists>hw'. readPort reg hw = (Inr (data_regs hw reg), hw') \<and> data_regs hw' = data_regs hw)"
  by (auto simp: readPort_def outb_def inb_def next_fault_def reg_ne_value Let_def
      split: list.splits option.splits)

lemma writePort_cases:
  "(\<exists>f hw'. writePort reg v hw = (Some f, hw') \<and> data_regs hw' = data_regs hw) \<or>
   (\<exists>hw'. writePort reg v hw = (None, hw') \<and> data_regs hw' = (data_regs hw)(reg := v))"
  by (auto simp: writePort_def outb_def next_fault_def reg_ne_value Let_def
      split: list.splits option.splits)

lemma updatePortLEDs_regs:
  "data_regs (snd (updatePortLEDs pc ns hw)) = data_regs hw \<or>
   data_regs (snd (updatePortLEDs pc ns hw)) =
     (data_regs hw)(register pc := apply_newStates (leds pc) ns (data_regs hw (register pc)))"
proof -
  consider f hw' where "readPort (register pc) hw = (Inl f, hw')" "data_regs hw' = data_regs hw"
    | hw' where "readPort (register pc) hw = (Inr (data_regs hw (register pc)), hw')"
        "data_regs hw' = data_regs hw"
    using readPort_cases [of "register pc" hw] by blast
  then show ?thesis
  proof cases
    case 1
    then show ?thesis by (simp add: updatePortLEDs_def)
  next
    case 2
    let ?m = "apply_newStates (leds pc) ns (data_regs hw (register pc))"
    from writePort_cases [of "register pc" ?m hw'] 2 show ?thesis
      by (auto simp: updatePortLEDs_def Let_def)
  qed
qed

lemma readPort_ok:
  "faults hw = [] \<Longrightarrow>
   readPort reg hw =
     (Inr (data_regs hw reg),
      hw\<lparr>io_log := io_log hw @ [Outb reg regPort, Inb valuePort], index_reg := reg\<rparr>)"
  by (simp add: readPort_def outb_def inb_def next_fault_def reg_ne_value Let_def)

lemma writePort_ok:
  "faults hw = [] \<Longrightarrow>
   writePort reg v hw =
     (None, hw\<lparr>io_log := io_log hw @ [Outb reg regPort, Outb v valuePort], index_reg := reg,
               data_regs := (data_regs hw)(reg := v)\<rparr>)"
  by (simp add: writePort_def outb_def next_fault_def reg_ne_value Let_def)

lemma updatePortLEDs_ok:
  assumes "faults hw = []"
  shows "fst (updatePortLEDs pc ns hw) = None"
    and "faults (snd (updatePortLEDs pc ns hw)) = []"
    and "data_regs (snd (updatePortLEDs pc ns hw)) =
     (data_regs hw)(register pc := apply_newStates (leds pc) ns (data_regs hw (register pc)))"
  using assms by (auto simp: updatePortLEDs_def readPort_ok writePort_ok Let_def)

lemma apply_newStates_other_bits:
  "(\<And>l st b. (l, st) \<in> set ns \<Longrightarrow> map_of ledmap l = Some b \<Longrightarrow> unat b \<noteq> n) \<Longrightarrow>
   bit (apply_newStates ledmap ns m) n = bit m n"
proof (induction ns arbitrary: m)
  case Nil
  then show ?case by simp
next
  case (Cons a ns)
  obtain l st where a: "a = (l, st)" by (cases a)
  have rest: "bit (apply_newStates ledmap ns m') n = bit m' n" for m'
    using Cons.prems by (intro Cons.IH) auto
  have here: "\<And>b. map_of ledmap l = Some b \<Longrightarrow> unat b \<noteq> n"
    using Cons.prems [of l st] a by simp
  show ?case
    using here by (auto simp: a rest bit_simps split: option.splits dest: bit_imp_le_length)
qed


lemma SetLED_disk1:
  "portPerms lc \<Longrightarrow> SetLED lc Disk1 on hw =
     updatePortLEDs (diskLEDPort\<lparr>leds := [(Disk1, 0)]\<rparr>) [(Disk1, on)] hw"
  by (simp add: SetLED_def statusLEDPort_def diskLEDPort_def StatusGreen_def StatusRed_def
      Disk1_def)

lemma SetLED_disk2:
  "portPerms lc \<Longrightarrow> SetLED lc Disk2 on hw =
     updatePortLEDs (diskLEDPort\<lparr>leds := [(Disk2, 1)]\<rparr>) [(Disk2, on)] hw"
  by (simp add: SetLED_def statusLEDPort_def diskLEDPort_def StatusGreen_def StatusRed_def
      Disk1_def Disk2_def)

lemma SetLED_disk_found:
  assumes "portPerms lc" "l \<in> set diskLEDs"
  shows "\<exists>b. SetLED lc l on hw = updatePortLEDs (diskLEDPort\<lparr>leds := [(l, b)]\<rparr>) [(l, on)] hw"
  using assms
  by (auto simp: SetLED_def statusLEDPort_def diskLEDPort_def StatusGreen_def StatusRed_def
      diskLEDs_def Disk1_def Disk2_def Disk3_def Disk4_def Disk5_def Disk6_def)

lemma SetLED_disk_ok:
  assumes "faults hw = []" "l \<in> set diskLEDs"
  shows "fst (SetLED lc l on hw) = None"
proof (cases "portPerms lc")
  case True
  from SetLED_disk_found [OF True assms(2), of on hw] obtain b where
    "SetLED lc l on hw = updatePortLEDs (diskLEDPort\<lparr>leds := [(l, b)]\<rparr>) [(l, on)] hw" ..
  then show ?thesis by (simp add: updatePortLEDs_ok(1) [OF assms(1)])
next
  case False
  then show ?thesis by (simp add: SetLED_def)
qed

lemma disk_switch_range:
  "1 \<le> n \<Longrightarrow> n \<le> 6 \<Longrightarrow> disk_switch n active = Some [(diskLEDs ! nat (n - 1), active)]"
proof -
  assume "1 \<le> n" "n \<le> 6"
  then have "n = 1 \<or> n = 2 \<or> n = 3 \<or> n = 4 \<or> n = 5 \<or> n = 6" by arith
  then show ?thesis
    by (elim disjE) (simp_all add: disk_switch_def diskLEDs_def)
qed

lemma disk_switch_invalid:
  "n < 1 \<or> 6 < n \<Longrightarrow> disk_switch n active = None"
  by (auto simp: disk_switch_def)

lemma diskLEDs_nth_mem: "1 \<le> n \<Longrightarrow> n \<le> 6 \<Longrightarrow> diskLEDs ! nat (n - 1) \<in> set diskLEDs"
  by (rule nth_mem) (simp add: diskLEDs_def)

lemma led_on_iff: "led_on m b = (\<not> bit m (unat b))"
  by (simp add: led_on_def push_bit_of_1 and_exp_eq_0_iff_not_bit)

lemma bit_apply_single:
  "bit (apply_newStates [(l, b)] [(l, on)] m) n =
     (if n = unat b then \<not> on \<and> n < 8 else bit m n)"
proof (cases on)
  case True
  then show ?thesis
    by (simp add: bit_and_iff bit_not_iff bit_exp_iff) (use bit_imp_le_length [of m n] in auto)
next
  case False
  then show ?thesis
    by (simp add: bit_or_iff bit_exp_iff) (use bit_imp_le_length [of m n] in auto)
qed

lemma disk_led_sequence:
  assumes "portPerms lc" "faults hw = []"
  shows "(case SetLED lc Disk1 True hw of (e1, hw1) \<Rightarrow>
          case SetLED lc Disk2 True hw1 of (e2, hw2) \<Rightarrow>
          case SetLED lc Disk1 False hw2 of (e3, hw3) \<Rightarrow>
            e1 = None \<and> e2 = None \<and> e3 = None \<and>
            led_on (data_regs hw1 (register diskLEDPort)) 0 \<and>
            led_on (data_regs hw2 (register diskLEDPort)) 0 \<and>
            led_on (data_regs hw2 (register diskLEDPort)) 1 \<and>
            \<not> led_on (data_regs hw3 (register diskLEDPort)) 0 \<and>
            led_on (data_regs hw3 (register diskLEDPort)) 1)"
proof -
  obtain e1 hw1 where r1: "SetLED lc Disk1 True hw = (e1, hw1)" by (cases "SetLED lc Disk1 True hw")
  obtain e2 hw2 where r2: "SetLED lc Disk2 True hw1 = (e2, hw2)" by (cases "SetLED lc Disk2 True hw1")
  obtain e3 hw3 where r3: "SetLED lc Disk1 False hw2 = (e3, hw3)" by (cases "SetLED lc Disk1 False hw2")
  let ?r = "register diskLEDPort"
  let ?v = "data_regs hw ?r"
  let ?v1 = "apply_newStates [(Disk1, 0)] [(Disk1, True)] ?v"
  let ?v2 = "apply_newStates [(Disk2, 1)] [(Disk2, True)] ?v1"
  let ?v3 = "apply_newStates [(Disk1, 0)] [(Disk1, False)] ?v2"
  have u1: "updatePortLEDs (diskLEDPort\<lparr>leds := [(Disk1, 0)]\<rparr>) [(Disk1, True)] hw = (e1, hw1)"
    using r1 assms(1) by (simp add: SetLED_disk1)
  from updatePortLEDs_ok [OF assms(2), of "diskLEDPort\<lparr>leds := [(Disk1, 0)]\<rparr>" "[(Disk1, True)]"]
  have s1: "e1 = None" "faults hw1 = []" "data_regs hw1 ?r = ?v1"
    by (simp_all add: u1 del: apply_newStates.simps)
  have u2: "updatePortLEDs (diskLEDPort\<lparr>leds := [(Disk2, 1)]\<rparr>) [(Disk2, True)] hw1 = (e2, hw2)"
    using r2 assms(1) by (simp add: SetLED_disk2)
  from updatePortLEDs_ok [OF s1(2), of "diskLEDPort\<lparr>leds := [(Disk2, 1)]\<rparr>" "[(Disk2, True)]"]
  have s2: "e2 = None" "faults hw2 = []" "data_regs hw2 ?r = ?v2"
    by (simp_all add: u2 s1(3) del: apply_newStates.simps)
  have u3: "updatePortLEDs (diskLEDPort\<lparr>leds := [(Disk1, 0)]\<rparr>) [(Disk1, False)] hw2 = (e3, hw3)"
    using r3 assms(1) by (simp add: SetLED_disk1)
  from updatePortLEDs_ok [OF s2(2), of "diskLEDPort\<lparr>leds := [(Disk1, 0)]\<rparr>" "[(Disk1, False)]"]
  have s3: "e3 = None" "data_regs hw3 ?r = ?v3"
    by (simp_all add: u3 s2(3) del: apply_newStates.simps)
  show ?thesis
    unfolding r1 r2 r3 prod.case s1 s2 s3
    by (simp add: led_on_iff bit_apply_single del: apply_newStates.simps)
qed


lemma updatePortLEDs_log:
  assumes "faults hw = []"
  shows "io_log (snd (updatePortLEDs pc newStates hw)) =
     io_log hw @ [Outb (register pc) regPort, Inb valuePort] @
       (if apply_newStates (leds pc) newStates (data_regs hw (register pc)) =
           data_regs hw (register pc)
        then []
        else [Outb (register pc) regPort,
              Outb (apply_newStates (leds pc) newStates (data_regs hw (register pc))) valuePort])"
  using assms by (simp add: updatePortLEDs_def readPort_ok writePort_ok Let_def)

lemma updatePortLEDs_other_registers:
  "r \<noteq> register pc \<Longrightarrow>
   data_regs (snd (updatePortLEDs pc newStates hw)) r = data_regs hw r"
  using updatePortLEDs_regs [of pc newStates hw] by (elim disjE) simp_all

lemma updatePortLEDs_other_bits:
  assumes other:
    "\<forall>(l, st) \<in> set newStates. \<forall>b. map_of (leds pc) l = Some b \<longrightarrow> unat b \<noteq> n"
  shows "bit (data_regs (snd (updatePortLEDs pc newStates hw)) (register pc)) n =
        bit (data_regs hw (register pc)) n"
proof -
  have "unat b \<noteq> n" if "(l, st) \<in> set newStates" "map_of (leds pc) l = Some b" for l st b
    using other that by blast
  then have "bit (apply_newStates (leds pc) newStates v) n = bit v n" for v
    by (rule apply_newStates_other_bits)
  with updatePortLEDs_regs [of pc newStates hw] show ?thesis
    by (elim disjE) (simp_all del: apply_newStates.simps)
qed

text \<open>
  Claim C4. Every LED update goes through \<^verbatim>\<open>updatePortLEDs\<close>, which, whether or not
  its port accesses succeed, leaves every other register as it was and, in its own
  register, every bit that is not the bit of an LED named in the new states; when the
  accesses succeed it reads the register once and then writes it back once, or not at
  all when no bit changes. With port permission and working port accesses, from any
  register contents: after
  \<^verbatim>\<open>SetLED(Disk1, true)\<close> and \<^verbatim>\<open>SetLED(Disk2, true)\<close> both LEDs read as on, and after
  \<^verbatim>\<open>SetLED(Disk1, false)\<close> Disk1 reads as off and Disk2 still as on.
\<close>

theorem led_update_preserves_other_bits:
  "(\<forall>r. r \<noteq> register pc \<longrightarrow>
        data_regs (snd (updatePortLEDs pc newStates hw)) r = data_regs hw r) \<and>
   (\<forall>n. (\<forall>(l, st) \<in> set newStates. \<forall>b. map_of (leds pc) l = Some b \<longrightarrow> unat b \<noteq> n) \<longrightarrow>
        bit (data_regs (snd (updatePortLEDs pc newStates hw)) (register pc)) n =
        bit (data_regs hw (register pc)) n) \<and>
   (faults hw = [] \<longrightarrow>
      io_log (snd (updatePortLEDs pc newStates hw)) =
        io_log hw @ [Outb (register pc) regPort, Inb valuePort] @
          (if apply_newStates (leds pc) newStates (data_regs hw (register pc)) =
              data_regs hw (register pc)
           then []
           else [Outb (register pc) regPort,
                 Outb (apply_newStates (leds pc) newStates (data_regs hw (register pc)))
                   valuePort])) \<and>
   (portPerms lc \<and> faults hw = [] \<longrightarrow>
      (case SetLED lc Disk1 True hw of (e1, hw1) \<Rightarrow>
       case SetLED lc Disk2 True hw1 of (e2, hw2) \<Rightarrow>
       case SetLED lc Disk1 False hw2 of (e3, hw3) \<Rightarrow>
         e1 = None \<and> e2 = None \<and> e3 = None \<and>
         led_on (data_regs hw1 (register diskLEDPort)) 0 \<and>
         led_on (data_regs hw2 (register diskLEDPort)) 0 \<and>
         led_on (data_regs hw2 (register diskLEDPort)) 1 \<and>
         \<not> led_on (data_regs hw3 (register diskLEDPort)) 0 \<and>
         led_on (data_regs hw3 (register diskLEDPort)) 1))"
proof (intro conjI allI impI)
  fix r
  assume "r \<noteq> register pc"
  then show "data_regs (snd (updatePortLEDs pc newStates hw)) r = data_regs hw r"
    by (rule updatePortLEDs_other_registers)
next
  fix n
  assume "\<forall>(l, st) \<in> set newStates. \<forall>b. map_of (leds pc) l = Some b \<longrightarrow> unat b \<noteq> n"
  then show "bit (data_regs (snd (updatePortLEDs pc newStates hw)) (register pc)) n =
        bit (data_regs hw (register pc)) n"
    by (rule updatePortLEDs_other_bits)
next
  assume "faults hw = []"
  then show "io_log (snd (updatePortLEDs pc newStates hw)) =
        io_log hw @ [Outb (register pc) regPort, Inb valuePort] @
          (if apply_newStates (leds pc) newStates (data_regs hw (register pc)) =
              data_regs hw (register pc)
           then []
           else [Outb (register pc) regPort,
                 Outb (apply_newStates (leds pc) newStates (data_regs hw (register pc)))
                   valuePort])"
    by (rule updatePortLEDs_log)
next
  assume "portPerms lc \<and> faults hw = []"
  then have "portPerms lc" "faults hw = []"
    by simp_all
  then show "case SetLED lc Disk1 True hw of (e1, hw1) \<Rightarrow>
       case SetLED lc Disk2 True hw1 of (e2, hw2) \<Rightarrow>
       case SetLED lc Disk1 False hw2 of (e3, hw3) \<Rightarrow>
         e1 = None \<and> e2 = None \<and> e3 = None \<and>
         led_on (data_regs hw1 (register diskLEDPort)) 0 \<and>
         led_on (data_regs hw2 (register diskLEDPort)) 0 \<and>
         led_on (data_regs hw2 (register diskLEDPort)) 1 \<and>
         \<not> led_on (data_regs hw3 (register diskLEDPort)) 0 \<and>
         led_on (data_regs hw3 (register diskLEDPort)) 1"
    by (rule disk_led_sequence)
qed

theorem led_update_preserves_other_bits_witness:
  "portPerms \<lparr>portPerms = True\<rparr> \<and> faults panel_idle = [] \<and>
   (0x91 :: byte) \<noteq> register diskLEDPort \<and>
   data_regs (snd (updatePortLEDs diskLEDPort [(Disk1, True)] panel_idle)) 0x91 =
     data_regs panel_idle 0x91 \<and>
   bit (data_regs (snd (updatePortLEDs diskLEDPort [(Disk1, True)] panel_idle))
          (register diskLEDPort)) 1 =
     bit (data_regs panel_idle (register diskLEDPort)) 1 \<and>
   (case SetLED \<lparr>portPerms = True\<rparr> Disk1 True panel_idle of (e1, hw1) \<Rightarrow>
    case SetLED \<lparr>portPerms = True\<rparr> Disk2 True hw1 of (e2, hw2) \<Rightarrow>
    case SetLED \<lparr>portPerms = True\<rparr> Disk1 False hw2 of (e3, hw3) \<Rightarrow>
      e1 = None \<and> e2 = None \<and> e3 = None \<and>
      led_on (data_regs hw1 (register diskLEDPort)) 0 \<and>
      led_on (data_regs hw2 (register diskLEDPort)) 0 \<and>
      led_on (data_regs hw2 (register diskLEDPort)) 1 \<and>
      \<not> led_on (data_regs hw3 (register diskLEDPort)) 0 \<and>
      led_on (data_regs hw3 (register diskLEDPort)) 1)"
proof -
  note T = led_update_preserves_other_bits
    [of diskLEDPort "[(Disk1, True)]" panel_idle "\<lparr>portPerms = True\<rparr>"]
  have h: "portPerms \<lparr>portPerms = True\<rparr> \<and> faults panel_idle = []"
    by (simp add: panel_idle_def)
  have r: "(0x91 :: byte) \<noteq> register diskLEDPort"
    by (simp add: diskLEDPort_def)
  have b: "\<forall>(l, st) \<in> set [(Disk1, True)].
      \<forall>b. map_of (leds diskLEDPort) l = Some b \<longrightarrow> unat b \<noteq> 1"
    by (simp add: diskLEDPort_def)
  note p1 = T [THEN conjunct1, THEN spec [of _ "0x91"], THEN mp, OF r]
  note p2 = T [THEN conjunct2, THEN conjunct1, THEN spec [of _ 1], THEN mp, OF b]
  note p3 = T [THEN conjunct2, THEN conjunct2, THEN conjunct2, THEN mp, OF h]
  from h r p1 p2 p3 show ?thesis
    by (iprover intro: conjI elim: conjE)
qed

section \<open>Disk activity by index\<close>

lemma NewLEDController_no_error: "snd (NewLEDController euid errno) = None"
  by (simp add: NewLEDController_def requestPortPermissions_def)

lemma NewSystemController_led:
  "led (NewSystemController euid errno) = Some (fst (NewLEDController euid errno))"
  by (simp add: NewSystemController_def NewLEDController_def requestPortPermissions_def)

lemma SetDiskActivity_invalid:
  "led sc = Some lc \<Longrightarrow> diskNum < 1 \<or> 6 < diskNum \<Longrightarrow>
   SetDiskActivity sc diskNum active hw = (Some (InvalidDiskNumber diskNum), hw)"
  by (simp add: SetDiskActivity_def disk_switch_invalid)

lemma SetDiskActivity_valid:
  "led sc = Some lc \<Longrightarrow> 1 \<le> diskNum \<Longrightarrow> diskNum \<le> 6 \<Longrightarrow>
   (fst (SetDiskActivity sc diskNum active hw) = None) =
     (fst (SetLED lc (diskLEDs ! nat (diskNum - 1)) active hw) = None)"
  by (simp add: SetDiskActivity_def disk_switch_range split: prod.splits option.splits)

text \<open>
  Claim C5. A system controller holds an LED controller: \<^verbatim>\<open>NewSystemController\<close>
  always stores one, since \<^verbatim>\<open>NewLEDController\<close> never returns an error. On such a
  controller \<^verbatim>\<open>SetDiskActivity\<close> returns the invalid-disk-number error, touching nothing,
  for every index below 1 or above 6 and either value of \<^verbatim>\<open>active\<close>, so for 0 and for
  7; for an index from 1 to 6 it succeeds exactly when the \<^verbatim>\<open>SetLED\<close> call on that
  disk's LED succeeds, which it does whenever the port accesses succeed.
\<close>

theorem SetDiskActivity_index_check:
  "(led sc = Some lc \<and> (diskNum < 1 \<or> 6 < diskNum) \<longrightarrow>
      SetDiskActivity sc diskNum active hw = (Some (InvalidDiskNumber diskNum), hw)) \<and>
   (led sc = Some lc \<and> 1 \<le> diskNum \<and> diskNum \<le> 6 \<longrightarrow>
      (fst (SetDiskActivity sc diskNum active hw) = None) =
        (fst (SetLED lc (diskLEDs ! nat (diskNum - 1)) active hw) = None)) \<and>
   (led sc = Some lc \<and> 1 \<le> diskNum \<and> diskNum \<le> 6 \<and> faults hw = [] \<longrightarrow>
      fst (SetDiskActivity sc diskNum active hw) = None) \<and>
   led (NewSystemController euid errno) = Some (fst (NewLEDController euid errno)) \<and>
   SetDiskActivity (NewSystemController euid errno) 0 active hw =
     (Some (InvalidDiskNumber 0), hw) \<and>
   SetDiskActivity (NewSystemController euid errno) 7 active hw =
     (Some (InvalidDiskNumber 7), hw)"
proof -
  have b: "SetDiskActivity sc diskNum active hw = (Some (InvalidDiskNumber diskNum), hw)"
    if "led sc = Some lc" "diskNum < 1 \<or> 6 < diskNum"
    using that by (rule SetDiskActivity_invalid)
  have c: "(fst (SetDiskActivity sc diskNum active hw) = None) =
        (fst (SetLED lc (diskLEDs ! nat (diskNum - 1)) active hw) = None)"
    if "led sc = Some lc" "1 \<le> diskNum" "diskNum \<le> 6"
    using that by (rule SetDiskActivity_valid)
  have d: "fst (SetDiskActivity sc diskNum active hw) = None"
    if "led sc = Some lc" "1 \<le> diskNum" "diskNum \<le> 6" "faults hw = []"
    using that c SetLED_disk_ok [OF that(4) diskLEDs_nth_mem [OF that(2,3)]] by simp
  note e = NewSystemController_led [of euid errno]
  have f0: "SetDiskActivity (NewSystemController euid errno) 0 active hw =
      (Some (InvalidDiskNumber 0), hw)"
    by (rule SetDiskActivity_invalid [OF e]) simp
  have f7: "SetDiskActivity (NewSystemController euid errno) 7 active hw =
      (Some (InvalidDiskNumber 7), hw)"
    by (rule SetDiskActivity_invalid [OF e]) simp
  show ?thesis
  proof (intro conjI impI)
    assume "led sc = Some lc \<and> (diskNum < 1 \<or> 6 < diskNum)"
    then show "SetDiskActivity sc diskNum active hw = (Some (InvalidDiskNumber diskNum), hw)"
      using b by (elim conjE)
  next
    assume "led sc = Some lc \<and> 1 \<le> diskNum \<and> diskNum \<le> 6"
    then show "(fst (SetDiskActivity sc diskNum active hw) = None) =
        (fst (SetLED lc (diskLEDs ! nat (diskNum - 1)) active hw) = None)"
      using c by (elim conjE)
  next
    assume "led sc = Some lc \<and> 1 \<le> diskNum \<and> diskNum \<le> 6 \<and> faults hw = []"
    then show "fst (SetDiskActivity sc diskNum active hw) = None"
      using d by (elim conjE)
  qed (rule e f0 f7)+
qed

theorem SetDiskActivity_index_check_witness:
  "led \<lparr>led = Some \<lparr>portPerms = True\<rparr>\<rparr> = Some \<lparr>portPerms = True\<rparr> \<and>
   faults panel_idle = [] \<and>
   SetDiskActivity \<lparr>led = Some \<lparr>portPerms = True\<rparr>\<rparr> 0 True panel_idle =
     (Some (InvalidDiskNumber 0), panel_idle) \<and>
   SetDiskActivity \<lparr>led = Some \<lparr>portPerms = True\<rparr>\<rparr> 7 True panel_idle =
     (Some (InvalidDiskNumber 7), panel_idle) \<and>
   fst (SetDiskActivity \<lparr>led = Some \<lparr>portPerms = True\<rparr>\<rparr> 1 True panel_idle) = None \<and>
   fst (SetDiskActivity \<lparr>led = Some \<lparr>portPerms = True\<rparr>\<rparr> 6 False panel_idle) = None \<and>
   SetDiskActivity (NewSystemController 0 0) 0 False panel_idle =
     (Some (InvalidDiskNumber 0), panel_idle) \<and>
   SetDiskActivity (NewSystemController 1000 0) 7 True panel_idle =
     (Some (InvalidDiskNumber 7), panel_idle)"
proof -
  let ?sc = "\<lparr>led = Some \<lparr>portPerms = True\<rparr>\<rparr>"
  let ?lc = "\<lparr>portPerms = True\<rparr>"
  have h: "led ?sc = Some ?lc"
    by simp
  have f: "faults panel_idle = []"
    by (simp add: panel_idle_def)
  have lo: "led ?sc = Some ?lc \<and> ((0 :: int) < 1 \<or> (6 :: int) < 0)"
    by simp
  have hi: "led ?sc = Some ?lc \<and> ((7 :: int) < 1 \<or> (6 :: int) < 7)"
    by simp
  have d1: "led ?sc = Some ?lc \<and> (1 :: int) \<le> 1 \<and> (1 :: int) \<le> 6 \<and> faults panel_idle = []"
    using f by simp
  have d6: "led ?sc = Some ?lc \<and> (1 :: int) \<le> 6 \<and> (6 :: int) \<le> 6 \<and> faults panel_idle = []"
    using f by simp
  note r0 = SetDiskActivity_index_check [of ?sc ?lc 0 True panel_idle 0 0,
      THEN conjunct1, THEN mp, OF lo]
  note r7 = SetDiskActivity_index_check [of ?sc ?lc 7 True panel_idle 0 0,
      THEN conjunct1, THEN mp, OF hi]
  note r1 = SetDiskActivity_index_check [of ?sc ?lc 1 True panel_idle 0 0,
      THEN conjunct2, THEN conjunct2, THEN conjunct1, THEN mp, OF d1]
  note r6 = SetDiskActivity_index_check [of ?sc ?lc 6 False panel_idle 0 0,
      THEN conjunct2, THEN conjunct2, THEN conjunct1, THEN mp, OF d6]
  note n0 = SetDiskActivity_index_check [of ?sc ?lc 0 False panel_idle 0 0,
      THEN conjunct2, THEN conjunct2, THEN conjunct2, THEN conjunct2, THEN conjunct1]
  note n7 = SetDiskActivity_index_check [of ?sc ?lc 0 True panel_idle 1000 0,
      THEN conjunct2, THEN conjunct2, THEN conjunct2, THEN conjunct2, THEN conjunct2]
  from h f r0 r7 r1 r6 n0 n7 show ?thesis
    by (iprover intro: conjI)
qed

section \<open>LED operations without port permission\<close>

text \<open>
  Claim C9. When \<^verbatim>\<open>portPerms\<close> is false, \<^verbatim>\<open>SetLED\<close>, \<^verbatim>\<open>SetDiskLEDs\<close> and
  \<^verbatim>\<open>SetStatusLED\<close> return nil for every argument and leave the hardware exactly as it
  was: no register changes, no access to \<^verbatim>\<open>/dev/port\<close> is consumed, and the log of
  bytes transferred does not grow.
\<close>

theorem led_operations_without_permission:
  assumes "\<not> portPerms lc"
  shows "SetLED lc l on hw = (None, hw) \<and> SetDiskLEDs lc states hw = (None, hw) \<and>
     SetStatusLED lc red green hw = (None, hw)"
  using assms by (simp add: SetLED_def SetDiskLEDs_def SetStatusLED_def)

theorem led_operations_without_permission_witness:
  "\<not> portPerms \<lparr>portPerms = False\<rparr> \<and>
   SetLED \<lparr>portPerms = False\<rparr> Disk1 True panel_idle = (None, panel_idle) \<and>
   SetDiskLEDs \<lparr>portPerms = False\<rparr> [(1, True), (2, False)] panel_idle = (None, panel_idle) \<and>
   SetStatusLED \<lparr>portPerms = False\<rparr> True False panel_idle = (None, panel_idle)"
proof -
  have h: "\<not> portPerms \<lparr>portPerms = False\<rparr>"
    by simp
  note r = led_operations_without_permission
    [OF h, of Disk1 True panel_idle "[(1, True), (2, False)]" True False]
  from h r show ?thesis
    by (iprover intro: conjI elim: conjE)
qed

end
